theory Spec2Isabelle
  imports Main
begin

section \<open>Panda Royale score sheet: data model\<close>

text \<open>
  The score sheet keeps ten rows of dice results in React state. A row is the object
  built by \<^verbatim>\<open>makeBlankRow\<close>: eight numeric fields and the flag \<^verbatim>\<open>locked\<close>.

  A field read from a row is a JavaScript value. The model keeps the values the scoring
  code distinguishes: a number, which is finite or one of NaN, Infinity, -Infinity, and
  \<^verbatim>\<open>undefined\<close> for a field that is absent from the object. Finite numbers are
  integers here (the data model of the sheet is integral and the input handlers only ever
  store integers); they are unbounded, so the rounding of doubles beyond \<open>2^53\<close>
  is outside the model. JavaScript's negative zero is identified with \<open>Fin 0\<close>:
  it is finite, falsy, adds like zero and prints as \<^verbatim>\<open>0\<close>.
\<close>

datatype jsnum = Fin int | NaN | PosInf | NegInf

datatype jsval = Undefined | Number jsnum

record row =
  y :: jsval
  purp :: jsval
  blue :: jsval
  redSum :: jsval
  redCount :: jsval
  green :: jsval
  clear :: jsval
  pink :: jsval
  locked :: bool

definition ROUNDS :: nat where
  "ROUNDS = 10"

text \<open>Unary plus (\<^verbatim>\<open>+n\<close>) and \<^verbatim>\<open>Number.isFinite\<close>.\<close>

fun toNumber :: "jsval \<Rightarrow> jsnum" where
  "toNumber Undefined = NaN"
| "toNumber (Number n) = n"

fun isFinite :: "jsnum \<Rightarrow> bool" where
  "isFinite (Fin n) = True"
| "isFinite NaN = False"
| "isFinite PosInf = False"
| "isFinite NegInf = False"

fun finValue :: "jsnum \<Rightarrow> int" where
  "finValue (Fin n) = n"
| "finValue NaN = 0"
| "finValue PosInf = 0"
| "finValue NegInf = 0"

text \<open>\<^verbatim>\<open>const clampNum = (n) => (Number.isFinite(+n) ? +n : 0);\<close>\<close>

definition clampNum :: "jsval \<Rightarrow> int" where
  "clampNum n = (if isFinite (toNumber n) then finValue (toNumber n) else 0)"

definition makeBlankRow :: row where
  "makeBlankRow = \<lparr> y = Number (Fin 0), purp = Number (Fin 0), blue = Number (Fin 0),
     redSum = Number (Fin 0), redCount = Number (Fin 0), green = Number (Fin 0),
     clear = Number (Fin 0), pink = Number (Fin 0), locked = False \<rparr>"

definition makeBlankRows :: "nat \<Rightarrow> row list" where
  "makeBlankRows n = replicate n makeBlankRow"

section \<open>Calculations\<close>

definition computeRowTotal :: "row \<Rightarrow> bool \<Rightarrow> int" where
  "computeRowTotal r hasGlitter =
     (let yv = clampNum (y r);
          p = clampNum (purp r) * 2;
          b = clampNum (blue r) * (if hasGlitter then 2 else 1);
          red = clampNum (redSum r) * clampNum (redCount r);
          g = clampNum (green r);
          c = clampNum (clear r);
          k = clampNum (pink r)
      in yv + p + b + red + g + c + k)"

text \<open>
  \<^verbatim>\<open>rowTotals = rows.map((r) => computeRowTotal(r, hasGlitterBlue))\<close> and
  \<^verbatim>\<open>gameTotal = rowTotals.reduce((a, b) => a + b, 0)\<close>, a left fold from 0.
\<close>

definition rowTotals :: "row list \<Rightarrow> bool \<Rightarrow> int list" where
  "rowTotals rs hasGlitter = map (\<lambda>r. computeRowTotal r hasGlitter) rs"

definition gameTotal :: "row list \<Rightarrow> bool \<Rightarrow> int" where
  "gameTotal rs hasGlitter = foldl (\<lambda>a b. a + b) 0 (rowTotals rs hasGlitter)"

definition allLocked :: "row list \<Rightarrow> bool" where
  "allLocked rs = list_all locked rs"

section \<open>Text input handlers\<close>

text \<open>
  The cells of the table are text inputs. \<^verbatim>\<open>raw.replace(/\D+/g, "")\<close> deletes every
  character that is not one of 0..9; a string is a list of bytes here, and no byte of a
  multi-byte character is an ASCII digit or a minus sign, so the filter, the prefix test
  and the digit count agree with JavaScript's on UTF-16 code units.
\<close>

definition isDigit :: "char \<Rightarrow> bool" where
  "isDigit c = (48 \<le> (of_char c :: nat) \<and> (of_char c :: nat) \<le> 57)"

definition digitVal :: "char \<Rightarrow> nat" where
  "digitVal c = of_char c - 48"

definition digitsValue :: "string \<Rightarrow> nat" where
  "digitsValue ds = foldl (\<lambda>a c. a * 10 + digitVal c) 0 ds"

definition startsWithMinus :: "string \<Rightarrow> bool" where
  "startsWithMinus s = (case s of [] \<Rightarrow> False | c # cs \<Rightarrow> c = CHR ''-'')"

text \<open>
  \<^verbatim>\<open>parseInt(s, 10)\<close>: an optional sign, then the longest run of decimal digits; NaN
  when that run is empty. (Leading white space, which \<^verbatim>\<open>parseInt\<close> skips, never
  occurs in the strings the handlers build.)
\<close>

definition parseInt :: "string \<Rightarrow> jsnum" where
  "parseInt s =
     (let neg = startsWithMinus s;
          body = (case s of [] \<Rightarrow> []
                  | c # cs \<Rightarrow> if c = CHR ''-'' \<or> c = CHR ''+'' then cs else s);
          ds = takeWhile isDigit body
      in if ds = [] then NaN
         else if neg then Fin (- int (digitsValue ds)) else Fin (int (digitsValue ds)))"

text \<open>
  \<^verbatim>\<open>NumberInput\<close> (the Red Sum cell) and \<^verbatim>\<open>CellNumber\<close> (the other six cells).
  The result is the number handed to \<^verbatim>\<open>onChange\<close>, or \<open>None\<close> when the handler
  returns without calling it. \<^verbatim>\<open>onChange(-0)\<close> hands over negative zero, which is
  \<open>0\<close> here.
\<close>

definition NumberInput_handle :: "bool \<Rightarrow> string \<Rightarrow> int option" where
  "NumberInput_handle disabled raw0 =
     (if disabled then None
      else let sign = (if startsWithMinus raw0 then ''-'' else []);
               raw = (if startsWithMinus raw0 then tl raw0 else raw0);
               digits = take 3 (filter isDigit raw)
           in if digits = [] \<and> sign \<noteq> [] then Some 0
              else let n = parseInt ((if sign \<noteq> [] then ''-'' else [])
                                      @ (if digits = [] then ''0'' else digits))
                   in Some (if isFinite n then finValue n else 0))"

definition CellNumber_handle :: "bool \<Rightarrow> bool \<Rightarrow> string \<Rightarrow> int option" where
  "CellNumber_handle allowNegative disabled raw0 =
     (if disabled then None
      else let sign = (if allowNegative \<and> startsWithMinus raw0 then ''-'' else []);
               raw = (if allowNegative \<and> startsWithMinus raw0 then tl raw0 else raw0);
               digits = take 3 (filter isDigit raw)
           in if digits = [] \<and> sign \<noteq> [] then Some 0
              else let n = parseInt ((if sign \<noteq> [] then ''-'' else [])
                                      @ (if digits = [] then ''0'' else digits))
                   in Some (if isFinite n then finValue n else 0))"

text \<open>
  The keys \<^verbatim>\<open>setField\<close> is called with, one per cell of a table row. The Red Sum cell
  is a \<^verbatim>\<open>NumberInput\<close>; every other cell is a \<^verbatim>\<open>CellNumber\<close> that is given no
  \<^verbatim>\<open>allowNegative\<close>, so the parameter keeps its default \<^verbatim>\<open>false\<close>.
\<close>

datatype field = Y | Purp | Blue | RedSum | Green | Clear | Pink

definition cellHandle :: "field \<Rightarrow> bool \<Rightarrow> string \<Rightarrow> int option" where
  "cellHandle key disabled raw =
     (if key = RedSum then NumberInput_handle disabled raw
      else CellNumber_handle False disabled raw)"

text \<open>The handler of the ``# Red Dice (default)'' input: digits only, two at most.\<close>

definition defaultRedHandle :: "string \<Rightarrow> int" where
  "defaultRedHandle raw =
     (let onlyDigits = filter isDigit raw;
          capped = take 2 onlyDigits;
          n = parseInt (if capped = [] then ''0'' else capped)
      in if isFinite n then finValue n else 0)"

section \<open>Session state and its operations\<close>

record session =
  rows :: "row list"
  activeRound :: nat
  defaultRedCount :: int
  playerName :: string
  hasGlitterBlue :: bool

text \<open>The initial values of the five \<^verbatim>\<open>useState\<close> cells, which \<^verbatim>\<open>resetAll\<close> restores.\<close>

definition freshSession :: session where
  "freshSession = \<lparr> rows = makeBlankRows ROUNDS, activeRound = 0, defaultRedCount = 0,
     playerName = ''Player'', hasGlitterBlue = False \<rparr>"

text \<open>\<^verbatim>\<open>{ ...copy[roundIdx], [key]: val }\<close>\<close>

fun updField :: "field \<Rightarrow> jsval \<Rightarrow> row \<Rightarrow> row" where
  "updField Y v r = r\<lparr>y := v\<rparr>"
| "updField Purp v r = r\<lparr>purp := v\<rparr>"
| "updField Blue v r = r\<lparr>blue := v\<rparr>"
| "updField RedSum v r = r\<lparr>redSum := v\<rparr>"
| "updField Green v r = r\<lparr>green := v\<rparr>"
| "updField Clear v r = r\<lparr>clear := v\<rparr>"
| "updField Pink v r = r\<lparr>pink := v\<rparr>"

datatype error = TypeError

text \<open>
  \<^verbatim>\<open>setField\<close>: reading \<^verbatim>\<open>rows[roundIdx].locked\<close> past the end of the array throws
  a TypeError; on a locked row the function returns before \<^verbatim>\<open>setRows\<close>.
\<close>

definition setField :: "row list \<Rightarrow> nat \<Rightarrow> field \<Rightarrow> jsval \<Rightarrow> error + row list" where
  "setField rs roundIdx key val =
     (if length rs \<le> roundIdx then Inl TypeError
      else if locked (rs ! roundIdx) then Inr rs
      else Inr (rs[roundIdx := updField key val (rs ! roundIdx)]))"

text \<open>
  \<^verbatim>\<open>doneRound\<close>. The object spread with \<^verbatim>\<open>redCount: defaultRedCount, locked: true\<close>
  is \<open>lockRow\<close>. The update is a list update: the only caller is the Done button, which
  exists inside the table row of the active round only, so \<open>activeRound s\<close> is an index
  of \<open>rows s\<close> whenever the function runs (past the end JavaScript would grow the array;
  every statement about \<open>doneRound\<close> below is about an index inside the array).
\<close>

definition lockRow :: "int \<Rightarrow> row \<Rightarrow> row" where
  "lockRow d r = r\<lparr>redCount := Number (Fin d), locked := True\<rparr>"

definition doneRound :: "session \<Rightarrow> session" where
  "doneRound s =
     s\<lparr>rows := (rows s)[activeRound s := lockRow (defaultRedCount s) (rows s ! activeRound s)],
       activeRound := min (activeRound s + 1) (ROUNDS - 1)\<rparr>"

text \<open>\<^verbatim>\<open>resetAll\<close>; the argument is the answer of the \<^verbatim>\<open>confirm\<close> dialog.\<close>

definition resetAll :: "bool \<Rightarrow> session \<Rightarrow> session" where
  "resetAll confirmed s = (if \<not> confirmed then s else freshSession)"

subsection \<open>The controls of the page\<close>

text \<open>
  The \<^verbatim>\<open>disabled\<close> property of the cell of field \<open>key\<close> in table row \<open>i\<close>:
  \<^verbatim>\<open>r.locked || !isActive\<close> for the yellow cell,
  \<^verbatim>\<open>r.locked || !isActive || isRound1\<close> for the other six.
\<close>

definition cellDisabled :: "session \<Rightarrow> nat \<Rightarrow> field \<Rightarrow> bool" where
  "cellDisabled s i key =
     (let r = rows s ! i; isActive = (i = activeRound s); isRound1 = (i = 0)
      in if key = Y then locked r \<or> \<not> isActive
         else locked r \<or> \<not> isActive \<or> isRound1)"

text \<open>
  A field-set request: text \<open>raw\<close> arrives at the cell of field \<open>key\<close> in table row
  \<open>i\<close>; the cell's handler coerces it and calls \<^verbatim>\<open>setField(i, key, v)\<close>. An exception
  in the handler leaves the state as it was.
\<close>

definition cellChange :: "session \<Rightarrow> nat \<Rightarrow> field \<Rightarrow> string \<Rightarrow> session" where
  "cellChange s i key raw =
     (case cellHandle key (cellDisabled s i key) raw of
        None \<Rightarrow> s
      | Some v \<Rightarrow>
          (case setField (rows s) i key (Number (Fin v)) of
             Inl e \<Rightarrow> s
           | Inr rs \<Rightarrow> s\<lparr>rows := rs\<rparr>))"

text \<open>
  The sign button of the Red Sum cell stores \<^verbatim>\<open>-(Number(r.redSum) || 0)\<close>.
\<close>

fun orZero :: "jsnum \<Rightarrow> jsnum" where
  "orZero NaN = Fin 0"
| "orZero (Fin n) = Fin n"
| "orZero PosInf = PosInf"
| "orZero NegInf = NegInf"

fun jsNeg :: "jsnum \<Rightarrow> jsnum" where
  "jsNeg (Fin n) = Fin (- n)"
| "jsNeg NaN = NaN"
| "jsNeg PosInf = NegInf"
| "jsNeg NegInf = PosInf"

definition toggleRedSign :: "session \<Rightarrow> nat \<Rightarrow> session" where
  "toggleRedSign s i =
     (case setField (rows s) i RedSum (Number (jsNeg (orZero (toNumber (redSum (rows s ! i)))))) of
        Inl e \<Rightarrow> s
      | Inr rs \<Rightarrow> s\<lparr>rows := rs\<rparr>)"

text \<open>
  What the user can do on the page. A text input exists in every table row (its handler
  returns at once when the cell is disabled). The sign button is rendered when
  \<^verbatim>\<open>!r.locked && isActive && !isRound1\<close> and the Done button when
  \<^verbatim>\<open>isActive && !r.locked\<close>; a control that is not rendered cannot be used. The
  minus and plus buttons of the red dice picker are taken to be available in every
  state (the dialog's open flag is not part of the session), which can only enlarge the
  set of reachable sessions.
\<close>

datatype event =
    CellInput nat field string
  | ToggleSign nat
  | ClickDone nat
  | DefaultRedInput string
  | PickerMinus
  | PickerPlus
  | NameInput string
  | GlitterCheckbox bool
  | ClickReset bool
  | ClickExport

fun enabled :: "session \<Rightarrow> event \<Rightarrow> bool" where
  "enabled s (CellInput i key raw) = (i < length (rows s))"
| "enabled s (ToggleSign i) =
     (i < length (rows s) \<and> \<not> locked (rows s ! i) \<and> i = activeRound s \<and> i \<noteq> 0)"
| "enabled s (ClickDone i) =
     (i < length (rows s) \<and> i = activeRound s \<and> \<not> locked (rows s ! i))"
| "enabled s (DefaultRedInput raw) = True"
| "enabled s PickerMinus = True"
| "enabled s PickerPlus = True"
| "enabled s (NameInput n) = True"
| "enabled s (GlitterCheckbox b) = True"
| "enabled s (ClickReset confirmed) = True"
| "enabled s ClickExport = True"

fun fire :: "session \<Rightarrow> event \<Rightarrow> session" where
  "fire s (CellInput i key raw) = cellChange s i key raw"
| "fire s (ToggleSign i) = toggleRedSign s i"
| "fire s (ClickDone i) = doneRound s"
| "fire s (DefaultRedInput raw) = s\<lparr>defaultRedCount := defaultRedHandle raw\<rparr>"
| "fire s PickerMinus = s\<lparr>defaultRedCount := max 0 (defaultRedCount s - 1)\<rparr>"
| "fire s PickerPlus = s\<lparr>defaultRedCount := min 99 (defaultRedCount s + 1)\<rparr>"
| "fire s (NameInput n) = s\<lparr>playerName := n\<rparr>"
| "fire s (GlitterCheckbox b) = s\<lparr>hasGlitterBlue := b\<rparr>"
| "fire s (ClickReset confirmed) = resetAll confirmed s"
| "fire s ClickExport = s"

text \<open>
  Running a sequence of user actions; \<open>None\<close> when one of them uses a control that the
  page does not offer in the state reached so far.
\<close>

fun run :: "session \<Rightarrow> event list \<Rightarrow> session option" where
  "run s [] = Some s"
| "run s (e # es) = (if enabled s e then run (fire s e) es else None)"

section \<open>CSV export\<close>

text \<open>
  \<^verbatim>\<open>Array.prototype.join\<close> turns every element into text and puts the separator
  between neighbours; an \<^verbatim>\<open>undefined\<close> element becomes the empty string. Integers
  print in decimal (the exponent notation of numbers from \<open>10^21\<close> on is outside the
  model).
\<close>

fun joinWith :: "string \<Rightarrow> string list \<Rightarrow> string" where
  "joinWith sep [] = []"
| "joinWith sep [x] = x"
| "joinWith sep (x # x' # xs) = x @ sep @ joinWith sep (x' # xs)"

definition digitChar :: "nat \<Rightarrow> char" where
  "digitChar d =
     (if d = 0 then CHR ''0'' else if d = 1 then CHR ''1'' else if d = 2 then CHR ''2''
      else if d = 3 then CHR ''3'' else if d = 4 then CHR ''4'' else if d = 5 then CHR ''5''
      else if d = 6 then CHR ''6'' else if d = 7 then CHR ''7'' else if d = 8 then CHR ''8''
      else CHR ''9'')"

fun showNat :: "nat \<Rightarrow> string" where
  "showNat n = (if n < 10 then [digitChar n] else showNat (n div 10) @ [digitChar (n mod 10)])"

declare showNat.simps [simp del]

definition showInt :: "int \<Rightarrow> string" where
  "showInt n = (if n < 0 then CHR ''-'' # showNat (nat (- n)) else showNat (nat n))"

fun numToString :: "jsnum \<Rightarrow> string" where
  "numToString (Fin n) = showInt n"
| "numToString NaN = ''NaN''"
| "numToString PosInf = ''Infinity''"
| "numToString NegInf = ''-Infinity''"

fun cellText :: "jsval \<Rightarrow> string" where
  "cellText Undefined = []"
| "cellText (Number n) = numToString n"

text \<open>\<^verbatim>\<open>x * 2\<close> and \<^verbatim>\<open>x || 0\<close> on a field value.\<close>

fun times2 :: "jsval \<Rightarrow> jsval" where
  "times2 Undefined = Number NaN"
| "times2 (Number (Fin n)) = Number (Fin (n * 2))"
| "times2 (Number NaN) = Number NaN"
| "times2 (Number PosInf) = Number PosInf"
| "times2 (Number NegInf) = Number NegInf"

fun orZeroVal :: "jsval \<Rightarrow> jsval" where
  "orZeroVal Undefined = Number (Fin 0)"
| "orZeroVal (Number n) = Number (orZero n)"

definition csvHeader :: "bool \<Rightarrow> string list" where
  "csvHeader hasGlitter =
     [''Round'', ''Yellow'', ''Purple(x2)'',
      ''Blue'' @ (if hasGlitter then ''(x2 glitter)'' else []),
      ''Red Sum'', ''Red Count'', ''Green'', ''Clear/White'', ''Pink (Pity)'', ''Row Total'']"

definition csvRow :: "bool \<Rightarrow> nat \<Rightarrow> row \<Rightarrow> string list" where
  "csvRow hasGlitter i r =
     [showNat (i + 1), cellText (y r), cellText (times2 (purp r)),
      cellText (if hasGlitter then times2 (blue r) else blue r),
      cellText (redSum r), cellText (orZeroVal (redCount r)), cellText (green r),
      cellText (clear r), cellText (pink r), showInt (computeRowTotal r hasGlitter)]"

definition csvFooter :: "int \<Rightarrow> string list" where
  "csvFooter gtotal = [[], [], [], [], [], [], [], [], ''Total'', showInt gtotal]"

definition buildCsvString :: "string \<Rightarrow> row list \<Rightarrow> bool \<Rightarrow> int \<Rightarrow> string" where
  "buildCsvString name rs hasGlitter gtotal =
     (let header = joinWith '','' (csvHeader hasGlitter);
          lines = map (\<lambda>(i, r). joinWith '','' (csvRow hasGlitter i r)) (enumerate 0 rs);
          footer = joinWith '','' (csvFooter gtotal)
      in joinWith [CHR 0x0A] (header # lines @ [footer]))"

text \<open>
  Reading the export back: \<^verbatim>\<open>text.split(c)\<close> for a one-character separator.
\<close>

fun splitOn :: "char \<Rightarrow> string \<Rightarrow> string list" where
  "splitOn c [] = [[]]"
| "splitOn c (x # xs) =
     (if x = c then [] # splitOn c xs
      else (case splitOn c xs of [] \<Rightarrow> [[x]] | w # ws \<Rightarrow> (x # w) # ws))"

section \<open>Restoring a saved session\<close>

text \<open>
  The value \<^verbatim>\<open>JSON.parse\<close> returns (numbers are integers here). An object is the list
  of its members in the order of the text; of two members with one key the later wins. A
  property that a value does not have reads as \<^verbatim>\<open>undefined\<close>, which is \<open>None\<close>.
\<close>

datatype json = JNull | JBool bool | JNum int | JStr string | JArr "json list"
  | JObj "(string \<times> json) list"

fun truthy :: "json \<Rightarrow> bool" where
  "truthy JNull = False"
| "truthy (JBool b) = b"
| "truthy (JNum n) = (n \<noteq> 0)"
| "truthy (JStr s) = (s \<noteq> [])"
| "truthy (JArr xs) = True"
| "truthy (JObj kvs) = True"

fun getProp :: "json \<Rightarrow> string \<Rightarrow> json option" where
  "getProp (JObj kvs) k = map_of (rev kvs) k"
| "getProp JNull k = None"
| "getProp (JBool b) k = None"
| "getProp (JNum n) k = None"
| "getProp (JStr s) k = None"
| "getProp (JArr xs) k = None"

text \<open>\<^verbatim>\<open>a || d\<close>, \<^verbatim>\<open>a ?? d\<close> and \<^verbatim>\<open>!!a\<close> on a property that was read.\<close>

fun orElse :: "json option \<Rightarrow> json \<Rightarrow> json" where
  "orElse None d = d"
| "orElse (Some v) d = (if truthy v then v else d)"

fun nullish :: "json option \<Rightarrow> json \<Rightarrow> json" where
  "nullish None d = d"
| "nullish (Some JNull) d = d"
| "nullish (Some v) d = v"

fun notNot :: "json option \<Rightarrow> bool" where
  "notNot None = False"
| "notNot (Some v) = truthy v"

text \<open>
  The five state cells as the load effect can leave them: whatever values the snapshot
  held. (The typed \<open>session\<close> above is the part of this space that the page itself
  produces.)
\<close>

record stateCells =
  rows_js :: json
  activeRound_js :: json
  defaultRedCount_js :: json
  playerName_js :: json
  hasGlitterBlue_js :: bool

definition blankRow_js :: json where
  "blankRow_js = JObj [(''y'', JNum 0), (''purp'', JNum 0), (''blue'', JNum 0),
     (''redSum'', JNum 0), (''redCount'', JNum 0), (''green'', JNum 0), (''clear'', JNum 0),
     (''pink'', JNum 0), (''locked'', JBool False)]"

definition freshCells :: stateCells where
  "freshCells = \<lparr> rows_js = JArr (replicate ROUNDS blankRow_js), activeRound_js = JNum 0,
     defaultRedCount_js = JNum 0, playerName_js = JStr ''Player'', hasGlitterBlue_js = False \<rparr>"

datatype parse_error = SyntaxError

text \<open>
  The load effect. Its argument is the outcome of
  \<^verbatim>\<open>JSON.parse(localStorage.getItem(LS_KEY) || "null")\<close>: a syntax error, which the
  empty \<^verbatim>\<open>catch\<close> swallows, or the parsed value (\<open>JNull\<close> when nothing is stored).
  \<open>st\<close> is the state at mount.
\<close>

definition loadUserData :: "parse_error + json \<Rightarrow> stateCells \<Rightarrow> stateCells" where
  "loadUserData parsed st =
     (case parsed of
        Inl e \<Rightarrow> st
      | Inr saved \<Rightarrow>
          if truthy saved then
            \<lparr> rows_js = orElse (getProp saved ''rows'') (rows_js st),
              activeRound_js = orElse (getProp saved ''activeRound'') (JNum 0),
              defaultRedCount_js = nullish (getProp saved ''defaultRedCount'') (JNum 0),
              playerName_js = orElse (getProp saved ''playerName'') (JStr ''Player''),
              hasGlitterBlue_js = notNot (getProp saved ''hasGlitterBlue'') \<rparr>
          else st)"

text \<open>
  Well-formed values of the scalar snapshot fields, as the specification types them:
  \<open>activeRoundIndex\<close> an integer in 0..9, \<open>defaultRedCount\<close> an integer that is not
  negative, \<open>playerName\<close> a string, \<open>rulesetFlag\<close> a boolean.
\<close>

fun wellFormedIndex :: "json \<Rightarrow> bool" where
  "wellFormedIndex (JNum n) = (0 \<le> n \<and> n \<le> 9)"
| "wellFormedIndex JNull = False"
| "wellFormedIndex (JBool b) = False"
| "wellFormedIndex (JStr s) = False"
| "wellFormedIndex (JArr xs) = False"
| "wellFormedIndex (JObj kvs) = False"

fun wellFormedCount :: "json \<Rightarrow> bool" where
  "wellFormedCount (JNum n) = (0 \<le> n)"
| "wellFormedCount JNull = False"
| "wellFormedCount (JBool b) = False"
| "wellFormedCount (JStr s) = False"
| "wellFormedCount (JArr xs) = False"
| "wellFormedCount (JObj kvs) = False"

fun wellFormedName :: "json \<Rightarrow> bool" where
  "wellFormedName (JStr s) = True"
| "wellFormedName JNull = False"
| "wellFormedName (JBool b) = False"
| "wellFormedName (JNum n) = False"
| "wellFormedName (JArr xs) = False"
| "wellFormedName (JObj kvs) = False"

fun wellFormedFlag :: "json \<Rightarrow> bool" where
  "wellFormedFlag (JBool b) = True"
| "wellFormedFlag JNull = False"
| "wellFormedFlag (JNum n) = False"
| "wellFormedFlag (JStr s) = False"
| "wellFormedFlag (JArr xs) = False"
| "wellFormedFlag (JObj kvs) = False"

section \<open>Notions used in the statements\<close>

text \<open>
  The number a cell hands to \<^verbatim>\<open>setField\<close> for the text \<open>raw\<close> when it is not disabled.
\<close>

definition storedValue :: "field \<Rightarrow> string \<Rightarrow> int" where
  "storedValue key raw = (case cellHandle key False raw of None \<Rightarrow> 0 | Some v \<Rightarrow> v)"

text \<open>
  The invariant of the sheet's red counts: a row that is not locked has \<open>redCount\<close> 0.
\<close>

definition redCountClean :: "row list \<Rightarrow> bool" where
  "redCountClean rs = list_all (\<lambda>r. locked r \<or> redCount r = Number (Fin 0)) rs"

text \<open>
  A session used as an example below: yellow 5 typed into round 1, the default red count
  set to 2, round 1 completed.
\<close>

definition scenarioA :: session where
  "scenarioA = freshSession\<lparr>rows :=
       makeBlankRow\<lparr>y := Number (Fin 5), redCount := Number (Fin 2), locked := True\<rparr>
         # replicate 9 makeBlankRow,
     activeRound := 1, defaultRedCount := 2\<rparr>"

text \<open>
  The lines of the export, and the texts that hold neither a comma nor a line feed.
\<close>

definition csvLines :: "string \<Rightarrow> row list \<Rightarrow> bool \<Rightarrow> int \<Rightarrow> string list" where
  "csvLines name rs flag gtotal = splitOn (CHR 0x0A) (buildCsvString name rs flag gtotal)"

definition plain :: "string \<Rightarrow> bool" where
  "plain s = (CHR '','' \<notin> set s \<and> CHR 0x0A \<notin> set s)"

text \<open>
  A necessary condition for a well-formed \<open>rounds\<close> field: a sequence of ten entries.
\<close>

fun wellFormedRows :: "json \<Rightarrow> bool" where
  "wellFormedRows (JArr xs) = (length xs = 10)"
| "wellFormedRows JNull = False"
| "wellFormedRows (JBool b) = False"
| "wellFormedRows (JNum n) = False"
| "wellFormedRows (JStr s) = False"
| "wellFormedRows (JObj kvs) = False"

text \<open>
  The contribution of a field as the specification words it: the field's value, or 0 when
  the field is absent or not a finite number.
\<close>

fun zero_unless_finite :: "jsval \<Rightarrow> int" where
  "zero_unless_finite (Number (Fin n)) = n"
| "zero_unless_finite (Number NaN) = 0"
| "zero_unless_finite (Number PosInf) = 0"
| "zero_unless_finite (Number NegInf) = 0"
| "zero_unless_finite Undefined = 0"

section \<open>Row score and game total\<close>

lemma clampNum_zero_unless_finite: "clampNum v = zero_unless_finite v"
proof (cases v)
  case Undefined
  then show ?thesis by (simp add: clampNum_def)
next
  case (Number n)
  then show ?thesis by (cases n) (simp_all add: clampNum_def)
qed

lemma foldl_plus_sum_list: "foldl (\<lambda>a b. a + b) (a::int) xs = a + sum_list xs"
  by (induction xs arbitrary: a) simp_all

text \<open>
  C1. The row score is
  yellow + purple*2 + blue*(2 if the flag is set, else 1) + redSum*redCount + green +
  clear + pink, where a field that is absent or not finite contributes 0; the function is
  total, so no field value raises. On a row whose eight fields are finite numbers this is
  the plain weighted sum of the stored integers.
\<close>

theorem computeRowTotal_contract:
  "computeRowTotal r flag =
       zero_unless_finite (y r) + zero_unless_finite (purp r) * 2
     + zero_unless_finite (blue r) * (if flag then 2 else 1)
     + zero_unless_finite (redSum r) * zero_unless_finite (redCount r)
     + zero_unless_finite (green r) + zero_unless_finite (clear r)
     + zero_unless_finite (pink r)
   \<and> computeRowTotal \<lparr> y = Number (Fin a), purp = Number (Fin b), blue = Number (Fin c),
       redSum = Number (Fin d), redCount = Number (Fin e), green = Number (Fin f),
       clear = Number (Fin g), pink = Number (Fin h), locked = l \<rparr> flag =
     a + b * 2 + c * (if flag then 2 else 1) + d * e + f + g + h"
  by (simp add: computeRowTotal_def clampNum_zero_unless_finite Let_def)

theorem computeRowTotal_contract_witness:
  "computeRowTotal (makeBlankRow\<lparr>blue := Number (Fin 3)\<rparr>) False = 3
   \<and> computeRowTotal (makeBlankRow\<lparr>blue := Number (Fin 3)\<rparr>) True = 6
   \<and> computeRowTotal (makeBlankRow\<lparr>y := Number (Fin 5), purp := Undefined, redSum := Number (Fin (- 4)),
        redCount := Number (Fin 2), pink := Number PosInf\<rparr>) True = - 3"
  using computeRowTotal_contract [where r = "makeBlankRow\<lparr>blue := Number (Fin 3)\<rparr>" and flag = False]
    computeRowTotal_contract [where r = "makeBlankRow\<lparr>blue := Number (Fin 3)\<rparr>" and flag = True]
    computeRowTotal_contract [where r = "makeBlankRow\<lparr>y := Number (Fin 5), purp := Undefined,
        redSum := Number (Fin (- 4)), redCount := Number (Fin 2), pink := Number PosInf\<rparr>" and flag = True]
  by (simp add: makeBlankRow_def)

text \<open>
  C7. The game total is the sum of the row scores of all rows of the sheet, whatever
  their lock flags are: it is the sum over every index, and rewriting the lock flags of
  the rows in any way leaves it unchanged. For a sheet of ten rows it is the sum of the
  ten row scores.
\<close>

theorem gameTotal_sum_of_rows:
  "gameTotal rs flag = (\<Sum>i<length rs. computeRowTotal (rs ! i) flag)
   \<and> gameTotal (map (\<lambda>r. r\<lparr>locked := lk r\<rparr>) rs) flag = gameTotal rs flag
   \<and> gameTotal [r0, r1, r2, r3, r4, r5, r6, r7, r8, r9] flag =
       computeRowTotal r0 flag + computeRowTotal r1 flag + computeRowTotal r2 flag
     + computeRowTotal r3 flag + computeRowTotal r4 flag + computeRowTotal r5 flag
     + computeRowTotal r6 flag + computeRowTotal r7 flag + computeRowTotal r8 flag
     + computeRowTotal r9 flag"
proof -
  have total: "gameTotal xs flag = sum_list (map (\<lambda>r. computeRowTotal r flag) xs)" for xs
    by (simp add: gameTotal_def rowTotals_def foldl_plus_sum_list)
  have by_index: "gameTotal rs flag = (\<Sum>i<length rs. computeRowTotal (rs ! i) flag)"
    unfolding total by (simp add: sum_list_sum_nth atLeast0LessThan)
  have "computeRowTotal (r\<lparr>locked := b\<rparr>) flag = computeRowTotal r flag" for r b
    by (simp add: computeRowTotal_def)
  then have "map (\<lambda>r. computeRowTotal r flag) (map (\<lambda>r. r\<lparr>locked := lk r\<rparr>) rs)
      = map (\<lambda>r. computeRowTotal r flag) rs"
    by simp
  then have any_locks: "gameTotal (map (\<lambda>r. r\<lparr>locked := lk r\<rparr>) rs) flag = gameTotal rs flag"
    unfolding total by (rule arg_cong)
  have ten: "gameTotal [r0, r1, r2, r3, r4, r5, r6, r7, r8, r9] flag =
       computeRowTotal r0 flag + computeRowTotal r1 flag + computeRowTotal r2 flag
     + computeRowTotal r3 flag + computeRowTotal r4 flag + computeRowTotal r5 flag
     + computeRowTotal r6 flag + computeRowTotal r7 flag + computeRowTotal r8 flag
     + computeRowTotal r9 flag"
    unfolding total by simp
  from by_index any_locks ten show ?thesis
    by (intro conjI)
qed

theorem gameTotal_sum_of_rows_witness:
  "gameTotal [makeBlankRow\<lparr>y := Number (Fin 5), locked := True\<rparr>, makeBlankRow\<lparr>blue := Number (Fin 3)\<rparr>] True
     = 11
   \<and> gameTotal [makeBlankRow\<lparr>y := Number (Fin 5)\<rparr>, makeBlankRow\<lparr>blue := Number (Fin 3)\<rparr>] True = 11"
  using gameTotal_sum_of_rows [where flag = True
      and rs = "[makeBlankRow\<lparr>y := Number (Fin 5), locked := True\<rparr>, makeBlankRow\<lparr>blue := Number (Fin 3)\<rparr>]"]
    gameTotal_sum_of_rows [where flag = True
      and rs = "[makeBlankRow\<lparr>y := Number (Fin 5)\<rparr>, makeBlankRow\<lparr>blue := Number (Fin 3)\<rparr>]"]
  by (simp add: makeBlankRow_def computeRowTotal_def clampNum_def lessThan_Suc numeral_2_eq_2)

section \<open>Field edits and their guards\<close>

lemma cellHandle_disabled: "cellHandle key True raw = None"
  by (simp add: cellHandle_def NumberInput_handle_def CellNumber_handle_def)

lemma cellHandle_enabled: "cellHandle key False raw = Some (storedValue key raw)"
  by (simp add: storedValue_def cellHandle_def NumberInput_handle_def CellNumber_handle_def Let_def)

lemma cellChange_disabled: "cellDisabled s i key \<Longrightarrow> cellChange s i key raw = s"
  by (simp add: cellChange_def cellHandle_disabled)

lemma cellChange_enabled:
  assumes "i < length (rows s)" and "\<not> cellDisabled s i key"
  shows "cellChange s i key raw =
    s\<lparr>rows := (rows s)[i := updField key (Number (Fin (storedValue key raw))) (rows s ! i)]\<rparr>"
proof -
  from assms(2) have "\<not> locked (rows s ! i)"
    by (auto simp: cellDisabled_def Let_def split: if_splits)
  with assms show ?thesis
    by (simp add: cellChange_def cellHandle_enabled setField_def)
qed

text \<open>
  \<^verbatim>\<open>setField\<close> on its own tests the lock flag and nothing else: on an unlocked row it
  writes the field, whatever the active round and the row index are.
\<close>

lemma setField_lock_guard_only:
  assumes "i < length rs"
  shows "locked (rs ! i) \<Longrightarrow> setField rs i key v = Inr rs"
    and "\<not> locked (rs ! i) \<Longrightarrow> setField rs i key v = Inr (rs[i := updField key v (rs ! i)])"
  using assms by (simp_all add: setField_def)

lemma fresh_rows: "rows freshSession = replicate 10 makeBlankRow"
  by (simp add: freshSession_def makeBlankRows_def ROUNDS_def)

lemma fresh_scalars:
  "activeRound freshSession = 0" "defaultRedCount freshSession = 0"
  "playerName freshSession = ''Player''" "hasGlitterBlue freshSession = False"
  by (simp_all add: freshSession_def)

lemma storedValue_five: "storedValue Y ''5'' = 5"
  by (simp add: storedValue_def cellHandle_def CellNumber_handle_def isDigit_def parseInt_def
      startsWithMinus_def digitsValue_def digitVal_def)

text \<open>
  C2. A field-set request on a rendered table row is a no-op (the session comes back
  unchanged) whenever the row is locked, or is not the active round, or is row 0 and the
  field is not yellow. So on row 0 a request for purple, blue, redSum, green, clear or pink
  never changes the row, whatever the active round and the lock flag are, while a request
  for yellow on row 0, when row 0 is active and unlocked, stores the coerced value in the
  row and changes nothing else. The sign button of the Red Sum cell, the other caller of
  \<^verbatim>\<open>setField\<close>, is not rendered under the same three conditions. (The lock guard is in
  \<^verbatim>\<open>setField\<close>, see \<open>setField_lock_guard_only\<close>; the other two guards are the
  \<^verbatim>\<open>disabled\<close> property of the cell, which the cell's handler checks before it calls
  \<^verbatim>\<open>setField\<close>.)
\<close>

theorem field_set_request_guard:
  assumes "i < length (rows s)"
  shows "(locked (rows s ! i) \<or> i \<noteq> activeRound s \<or> (i = 0 \<and> key \<noteq> Y)
            \<longrightarrow> cellChange s i key raw = s)
       \<and> (i = 0 \<and> key \<in> {Purp, Blue, RedSum, Green, Clear, Pink}
            \<longrightarrow> rows (cellChange s i key raw) ! 0 = rows s ! 0)
       \<and> (locked (rows s ! i) \<or> i \<noteq> activeRound s \<or> i = 0 \<longrightarrow> \<not> enabled s (ToggleSign i))
       \<and> (i = 0 \<and> activeRound s = 0 \<and> \<not> locked (rows s ! 0)
            \<longrightarrow> rows (cellChange s i Y raw) ! 0
                  = (rows s ! 0)\<lparr>y := Number (Fin (storedValue Y raw))\<rparr>
              \<and> cellChange s i Y raw
                  = s\<lparr>rows := (rows s)[0 := (rows s ! 0)\<lparr>y := Number (Fin (storedValue Y raw))\<rparr>]\<rparr>)"
proof (intro conjI impI)
  assume "locked (rows s ! i) \<or> i \<noteq> activeRound s \<or> (i = 0 \<and> key \<noteq> Y)"
  then have "cellDisabled s i key"
    by (auto simp: cellDisabled_def Let_def)
  then show "cellChange s i key raw = s"
    by (rule cellChange_disabled)
next
  assume "i = 0 \<and> key \<in> {Purp, Blue, RedSum, Green, Clear, Pink}"
  then have "cellDisabled s i key"
    by (auto simp: cellDisabled_def Let_def)
  then show "rows (cellChange s i key raw) ! 0 = rows s ! 0"
    by (simp add: cellChange_disabled)
next
  assume "locked (rows s ! i) \<or> i \<noteq> activeRound s \<or> i = 0"
  then show "\<not> enabled s (ToggleSign i)"
    by auto
next
  assume a: "i = 0 \<and> activeRound s = 0 \<and> \<not> locked (rows s ! 0)"
  then have "\<not> cellDisabled s i Y"
    by (simp add: cellDisabled_def Let_def)
  with assms have eq: "cellChange s i Y raw =
      s\<lparr>rows := (rows s)[i := updField Y (Number (Fin (storedValue Y raw))) (rows s ! i)]\<rparr>"
    by (rule cellChange_enabled)
  with a show "cellChange s i Y raw
      = s\<lparr>rows := (rows s)[0 := (rows s ! 0)\<lparr>y := Number (Fin (storedValue Y raw))\<rparr>]\<rparr>"
    by simp
  with assms a show "rows (cellChange s i Y raw) ! 0
      = (rows s ! 0)\<lparr>y := Number (Fin (storedValue Y raw))\<rparr>"
    by simp
qed

theorem field_set_request_guard_witness:
  "(0::nat) < length (rows freshSession)
   \<and> cellChange freshSession 0 Purp ''5'' = freshSession
   \<and> rows (cellChange freshSession 0 Purp ''5'') ! 0 = makeBlankRow
   \<and> rows (cellChange freshSession 0 Y ''5'') ! 0 = makeBlankRow\<lparr>y := Number (Fin 5)\<rparr>"
  using field_set_request_guard [where i = 0 and s = freshSession and key = Purp and raw = "''5''"]
  by (simp add: fresh_rows fresh_scalars storedValue_five makeBlankRow_def)

section \<open>Completing a round\<close>

lemma lockRow_locked: "locked r \<Longrightarrow> lockRow d r = r\<lparr>redCount := Number (Fin d)\<rparr>"
  by (cases r) (simp add: lockRow_def)

lemma lockRow_fixed: "locked r \<Longrightarrow> (lockRow d r = r) = (redCount r = Number (Fin d))"
  by (cases r) (auto simp add: lockRow_def)

lemma lockRow_twice: "lockRow d (lockRow d r) = lockRow d r"
  by (simp add: lockRow_def)

lemma doneRound_iterated:
  "k \<le> 10 \<Longrightarrow> (doneRound ^^ k) freshSession =
     freshSession\<lparr>rows := replicate k (lockRow 0 makeBlankRow) @ replicate (10 - k) makeBlankRow,
                  activeRound := min k 9\<rparr>"
proof (induction k)
  case 0
  then show ?case
    by (simp add: freshSession_def makeBlankRows_def ROUNDS_def)
next
  case (Suc k)
  then have k: "k < 10" and ih: "(doneRound ^^ k) freshSession =
     freshSession\<lparr>rows := replicate k (lockRow 0 makeBlankRow) @ replicate (10 - k) makeBlankRow,
                  activeRound := min k 9\<rparr>"
    by simp_all
  from k have m: "min k 9 = k" by simp
  from k have rest: "replicate (10 - k) makeBlankRow = makeBlankRow # replicate (10 - Suc k) makeBlankRow"
    by (cases "10 - k") (simp_all add: Suc_diff_Suc)
  have upd: "(replicate k (lockRow 0 makeBlankRow) @ replicate (10 - k) makeBlankRow)
        [k := lockRow 0 ((replicate k (lockRow 0 makeBlankRow) @ replicate (10 - k) makeBlankRow) ! k)]
      = replicate (Suc k) (lockRow 0 makeBlankRow) @ replicate (10 - Suc k) makeBlankRow"
    unfolding rest by (simp add: list_update_append nth_append replicate_append_same)
  have "(doneRound ^^ Suc k) freshSession = doneRound ((doneRound ^^ k) freshSession)"
    by simp
  also have "\<dots> = freshSession\<lparr>rows := replicate (Suc k) (lockRow 0 makeBlankRow)
                        @ replicate (10 - Suc k) makeBlankRow, activeRound := min (Suc k) 9\<rparr>"
    unfolding ih using k upd
    by (simp add: doneRound_def m ROUNDS_def freshSession_def)
  finally show ?case .
qed

lemma ten_dones_enabled:
  "m \<le> 10 \<Longrightarrow> run ((doneRound ^^ (10 - m)) freshSession) (map ClickDone [10 - m..<10])
     = Some ((doneRound ^^ 10) freshSession)"
proof (induction m)
  case 0
  then show ?case by simp
next
  case (Suc m)
  define k where "k = 10 - Suc m"
  with Suc.prems have k: "k < 10" and km: "10 - m = Suc k" by simp_all
  have st: "(doneRound ^^ k) freshSession =
     freshSession\<lparr>rows := replicate k (lockRow 0 makeBlankRow) @ replicate (10 - k) makeBlankRow,
                  activeRound := min k 9\<rparr>"
    using k by (simp add: doneRound_iterated)
  from k have en: "enabled ((doneRound ^^ k) freshSession) (ClickDone k)"
    unfolding st by (simp add: nth_append makeBlankRow_def)
  from k have "[k..<10] = k # [Suc k..<10]"
    by (simp add: upt_conv_Cons)
  then have "run ((doneRound ^^ k) freshSession) (map ClickDone [k..<10])
      = run ((doneRound ^^ Suc k) freshSession) (map ClickDone [Suc k..<10])"
    using en by simp
  also have "\<dots> = Some ((doneRound ^^ 10) freshSession)"
    using Suc.IH Suc.prems km by simp
  finally show ?case
    by (simp add: k_def)
qed

lemma ten_dones: "(doneRound ^^ 10) freshSession =
     freshSession\<lparr>rows := replicate 10 (lockRow 0 makeBlankRow), activeRound := 9\<rparr>"
  using doneRound_iterated [of 10] by simp

text \<open>
  C6. Completing the active round (an index of the sheet) replaces that row by itself
  with \<open>locked\<close> true and \<open>redCount\<close> the session's current \<open>defaultRedCount\<close>, leaves
  every other row and the default untouched, and moves the active index to
  \<open>min (index + 1) 9\<close>: never beyond 9 and never backwards. From a fresh session the Done
  button can be pressed ten times in a row, on rounds 0 to 9; that is ten calls of
  \<^verbatim>\<open>doneRound\<close>, after which the sheet still has ten rows, all of them locked, and the
  active index is 9.
\<close>

theorem doneRound_completes:
  "(activeRound s < length (rows s) \<longrightarrow>
       rows (doneRound s) ! activeRound s
         = (rows s ! activeRound s)\<lparr>redCount := Number (Fin (defaultRedCount s)), locked := True\<rparr>
     \<and> length (rows (doneRound s)) = length (rows s)
     \<and> (\<forall>j < length (rows s). j \<noteq> activeRound s \<longrightarrow> rows (doneRound s) ! j = rows s ! j)
     \<and> activeRound (doneRound s) = min (activeRound s + 1) 9
     \<and> activeRound (doneRound s) \<le> 9
     \<and> (activeRound s \<le> 9 \<longrightarrow> activeRound s \<le> activeRound (doneRound s))
     \<and> defaultRedCount (doneRound s) = defaultRedCount s)
   \<and> run freshSession (map ClickDone [0..<10]) = Some ((doneRound ^^ 10) freshSession)
   \<and> length (rows ((doneRound ^^ 10) freshSession)) = 10
   \<and> allLocked (rows ((doneRound ^^ 10) freshSession))
   \<and> activeRound ((doneRound ^^ 10) freshSession) = 9"
proof (intro conjI impI)
  show "run freshSession (map ClickDone [0..<10]) = Some ((doneRound ^^ 10) freshSession)"
    using ten_dones_enabled [of 10] by simp
  show "length (rows ((doneRound ^^ 10) freshSession)) = 10"
    by (simp add: ten_dones)
  show "allLocked (rows ((doneRound ^^ 10) freshSession))"
    by (simp add: ten_dones allLocked_def list_all_iff lockRow_def)
  show "activeRound ((doneRound ^^ 10) freshSession) = 9"
    by (simp add: ten_dones)
next
  assume "activeRound s < length (rows s)"
  then show "rows (doneRound s) ! activeRound s
      = (rows s ! activeRound s)\<lparr>redCount := Number (Fin (defaultRedCount s)), locked := True\<rparr>"
    by (simp add: doneRound_def lockRow_def)
next
  show "length (rows (doneRound s)) = length (rows s)"
    by (simp add: doneRound_def)
  show "\<forall>j < length (rows s). j \<noteq> activeRound s \<longrightarrow> rows (doneRound s) ! j = rows s ! j"
    by (simp add: doneRound_def)
  show "activeRound (doneRound s) = min (activeRound s + 1) 9"
    by (simp add: doneRound_def ROUNDS_def)
  show "activeRound (doneRound s) \<le> 9"
    by (simp add: doneRound_def ROUNDS_def)
  show "activeRound s \<le> activeRound (doneRound s)" if "activeRound s \<le> 9"
    using that unfolding doneRound_def ROUNDS_def by (simp del: min_Suc_numeral)
  show "defaultRedCount (doneRound s) = defaultRedCount s"
    by (simp add: doneRound_def)
qed

theorem doneRound_completes_witness:
  "activeRound freshSession < length (rows freshSession)
   \<and> rows (doneRound freshSession) ! 0 = makeBlankRow\<lparr>redCount := Number (Fin 0), locked := True\<rparr>
   \<and> activeRound (doneRound freshSession) = 1
   \<and> allLocked (rows ((doneRound ^^ 10) freshSession))"
  using doneRound_completes [where s = freshSession]
  by (simp add: fresh_rows fresh_scalars)

text \<open>
  C4 (as stated, refuted). The lock step of \<^verbatim>\<open>doneRound\<close> has no test of the
  \<open>locked\<close> flag: applied to a row that is already locked, with a default red count
  other than the row's snapshot, it writes the new count. A row locked with 2 red dice and
  locked again under a default of 5 ends with 5; the same at the level of
  \<^verbatim>\<open>doneRound\<close>, on a session whose active round 0 is already locked.
\<close>

theorem lockRow_resnapshots_counterexample:
  "locked (lockRow 2 makeBlankRow)
   \<and> lockRow 5 (lockRow 2 makeBlankRow) \<noteq> lockRow 2 makeBlankRow
   \<and> redCount (lockRow 5 (lockRow 2 makeBlankRow)) = Number (Fin 5)
   \<and> locked (rows (freshSession\<lparr>rows := lockRow 2 makeBlankRow # replicate 9 makeBlankRow,
                                 defaultRedCount := 5\<rparr>) ! 0)
   \<and> rows (doneRound (freshSession\<lparr>rows := lockRow 2 makeBlankRow # replicate 9 makeBlankRow,
                                    defaultRedCount := 5\<rparr>)) ! 0
       \<noteq> lockRow 2 makeBlankRow"
  by (simp add: lockRow_def makeBlankRow_def doneRound_def fresh_scalars)

text \<open>
  C4 (amended). Applying the lock step to a row whose \<open>locked\<close> flag is already true
  raises nothing and changes nothing but \<open>redCount\<close>, which becomes the current default
  red count: the row comes back unchanged exactly when its \<open>redCount\<close> already is that
  value, so locking twice under one default is the same as locking once. The page offers
  the Done button of a row only while the row is unlocked, so no user action applies the
  lock step to a locked row.
\<close>

theorem lockRow_on_locked_row:
  assumes "locked r"
  shows "lockRow d r = r\<lparr>redCount := Number (Fin d)\<rparr>
       \<and> (lockRow d r = r) = (redCount r = Number (Fin d))
       \<and> lockRow d (lockRow d r) = lockRow d r
       \<and> (\<forall>(s::session) i. rows s ! i = r \<longrightarrow> \<not> enabled s (ClickDone i))"
proof (intro conjI allI impI)
  from assms show "lockRow d r = r\<lparr>redCount := Number (Fin d)\<rparr>"
    by (rule lockRow_locked)
  from assms show "(lockRow d r = r) = (redCount r = Number (Fin d))"
    by (rule lockRow_fixed)
  show "lockRow d (lockRow d r) = lockRow d r"
    by (rule lockRow_twice)
  fix s :: session and i
  assume "rows s ! i = r"
  with assms show "\<not> enabled s (ClickDone i)"
    by simp
qed

theorem lockRow_on_locked_row_witness:
  "locked (lockRow 2 makeBlankRow)
   \<and> lockRow 5 (lockRow 2 makeBlankRow) = (lockRow 2 makeBlankRow)\<lparr>redCount := Number (Fin 5)\<rparr>
   \<and> lockRow 2 (lockRow 2 makeBlankRow) = lockRow 2 makeBlankRow"
  using lockRow_on_locked_row [where r = "lockRow 2 makeBlankRow" and d = 5]
    lockRow_on_locked_row [where r = "lockRow 2 makeBlankRow" and d = 2]
  by (simp add: lockRow_def)

section \<open>Locked rounds and red counts\<close>

lemma updField_keeps: "redCount (updField key v r) = redCount r" "locked (updField key v r) = locked r"
  by (cases key; simp)+

lemma setField_rows:
  assumes "setField rs j key v = Inr rs'"
  shows "length rs' = length rs"
    and "i < length rs \<Longrightarrow> locked (rs ! i) \<Longrightarrow> rs' ! i = rs ! i"
    and "i < length rs \<Longrightarrow> redCount (rs' ! i) = redCount (rs ! i) \<and> locked (rs' ! i) = locked (rs ! i)"
proof -
  from assms have j: "j < length rs"
    by (auto simp: setField_def split: if_splits)
  from assms have rs': "rs' = (if locked (rs ! j) then rs else rs[j := updField key v (rs ! j)])"
    by (auto simp: setField_def split: if_splits)
  show "length rs' = length rs"
    by (simp add: rs')
  show "rs' ! i = rs ! i" if "i < length rs" "locked (rs ! i)"
    using that by (cases "i = j") (auto simp: rs')
  show "redCount (rs' ! i) = redCount (rs ! i) \<and> locked (rs' ! i) = locked (rs ! i)" if "i < length rs"
    using that j by (cases "i = j") (auto simp: rs' updField_keeps)
qed

lemma cellChange_rows:
  "length (rows (cellChange s j key raw)) = length (rows s)"
  "i < length (rows s) \<Longrightarrow> locked (rows s ! i) \<Longrightarrow> rows (cellChange s j key raw) ! i = rows s ! i"
  "i < length (rows s) \<Longrightarrow> redCount (rows (cellChange s j key raw) ! i) = redCount (rows s ! i)
      \<and> locked (rows (cellChange s j key raw) ! i) = locked (rows s ! i)"
  by (auto simp: cellChange_def setField_rows split: option.splits sum.splits)

lemma toggleRedSign_rows:
  "length (rows (toggleRedSign s j)) = length (rows s)"
  "i < length (rows s) \<Longrightarrow> locked (rows s ! i) \<Longrightarrow> rows (toggleRedSign s j) ! i = rows s ! i"
  "i < length (rows s) \<Longrightarrow> redCount (rows (toggleRedSign s j) ! i) = redCount (rows s ! i)
      \<and> locked (rows (toggleRedSign s j) ! i) = locked (rows s ! i)"
  by (auto simp: toggleRedSign_def setField_rows split: sum.splits)

lemma doneRound_rows:
  "length (rows (doneRound s)) = length (rows s)"
  "i < length (rows s) \<Longrightarrow> i \<noteq> activeRound s \<Longrightarrow> rows (doneRound s) ! i = rows s ! i"
  "activeRound s < length (rows s) \<Longrightarrow> rows (doneRound s) ! activeRound s
      = lockRow (defaultRedCount s) (rows s ! activeRound s)"
  by (simp_all add: doneRound_def)

lemma fire_keeps_locked_row:
  assumes "enabled s e" and "e \<noteq> ClickReset True"
    and "i < length (rows s)" and "locked (rows s ! i)"
  shows "length (rows (fire s e)) = length (rows s) \<and> rows (fire s e) ! i = rows s ! i"
proof (cases e)
  case (CellInput j key raw)
  with assms show ?thesis by (simp add: cellChange_rows)
next
  case (ToggleSign j)
  with assms show ?thesis by (simp add: toggleRedSign_rows)
next
  case (ClickDone j)
  with assms have "i \<noteq> activeRound s" by auto
  with assms ClickDone show ?thesis by (simp add: doneRound_rows)
next
  case (ClickReset confirmed)
  with assms show ?thesis by (simp add: resetAll_def)
qed simp_all

lemma run_keeps_locked_row:
  assumes "run s es = Some s'" and "ClickReset True \<notin> set es"
    and "i < length (rows s)" and "locked (rows s ! i)"
  shows "length (rows s') = length (rows s) \<and> rows s' ! i = rows s ! i"
  using assms
proof (induction es arbitrary: s)
  case Nil
  then show ?case by simp
next
  case (Cons e es)
  from Cons.prems have en: "enabled s e" and rest: "run (fire s e) es = Some s'"
    by (auto split: if_splits)
  from Cons.prems have ne: "e \<noteq> ClickReset True" and nes: "ClickReset True \<notin> set es"
    by auto
  from fire_keeps_locked_row [OF en ne Cons.prems(3,4)]
  have step: "length (rows (fire s e)) = length (rows s)" "rows (fire s e) ! i = rows s ! i"
    by simp_all
  with Cons.prems have "i < length (rows (fire s e))" "locked (rows (fire s e) ! i)"
    by simp_all
  from Cons.IH [OF rest nes this] step show ?case
    by simp
qed

lemma redCountClean_nth:
  "redCountClean rs = (\<forall>i<length rs. locked (rs ! i) \<or> redCount (rs ! i) = Number (Fin 0))"
  by (simp add: redCountClean_def list_all_length)

lemma fire_redCountClean:
  assumes "redCountClean (rows s)"
  shows "redCountClean (rows (fire s e))"
proof (cases e)
  case (CellInput j key raw)
  with assms show ?thesis
    by (simp add: redCountClean_nth cellChange_rows)
next
  case (ToggleSign j)
  with assms show ?thesis
    by (simp add: redCountClean_nth toggleRedSign_rows)
next
  case (ClickDone j)
  have "locked (rows (doneRound s) ! i) \<or> redCount (rows (doneRound s) ! i) = Number (Fin 0)"
    if "i < length (rows s)" for i
  proof (cases "i = activeRound s")
    case True
    with that show ?thesis by (simp add: doneRound_rows lockRow_def)
  next
    case False
    with that assms show ?thesis by (simp add: doneRound_rows redCountClean_nth)
  qed
  with ClickDone show ?thesis
    by (simp add: redCountClean_nth doneRound_rows)
next
  case (ClickReset confirmed)
  with assms show ?thesis
    by (simp add: resetAll_def redCountClean_def freshSession_def makeBlankRows_def
        makeBlankRow_def list_all_iff)
qed (use assms in simp_all)

lemma run_redCountClean:
  "run s es = Some s' \<Longrightarrow> redCountClean (rows s) \<Longrightarrow> redCountClean (rows s')"
proof (induction es arbitrary: s)
  case Nil
  then show ?case by simp
next
  case (Cons e es)
  then show ?case
    by (auto split: if_splits intro: fire_redCountClean)
qed


lemma fire_length:
  "length (rows (fire s e)) = (if e = ClickReset True then 10 else length (rows s))"
  by (cases e)
    (simp_all add: cellChange_rows toggleRedSign_rows doneRound_rows resetAll_def fresh_rows)

lemma run_length:
  "run s es = Some s' \<Longrightarrow> length (rows s) = 10 \<Longrightarrow> length (rows s') = 10"
proof (induction es arbitrary: s)
  case Nil
  then show ?case by simp
next
  case (Cons e es)
  then show ?case
    by (auto simp: fire_length split: if_splits)
qed

lemma setField_redCountClean:
  assumes "setField rs j key v = Inr rs'" and "redCountClean rs"
  shows "redCountClean rs'"
  using assms(2) setField_rows(1,3) [OF assms(1)]
  by (simp add: redCountClean_nth)

lemma scenarioA_reached:
  "run freshSession [CellInput 0 Y ''5'', DefaultRedInput ''2'', ClickDone 0] = Some scenarioA"
  by code_simp

text \<open>
  C3. Take any session and a row of it that is locked. No single user action other than
  a confirmed reset changes that row: its seven dice-color fields, its \<open>redCount\<close> and its
  lock flag stay as they are; the same holds after any sequence of user actions without a
  confirmed reset (field edits, sign toggles, round completions, changes of the default
  red count, name and ruleset changes, exports). This covers every session reachable from
  a fresh one. A confirmed reset replaces the sheet by ten blank rows. (Round completion
  is the Done button, which the page renders for the active round only while that round
  is unlocked.)
\<close>

theorem locked_round_immutable:
  assumes "i < length (rows s)" and "locked (rows s ! i)"
  shows "(\<forall>e. enabled s e \<longrightarrow> e \<noteq> ClickReset True \<longrightarrow> rows (fire s e) ! i = rows s ! i)
       \<and> (\<forall>es s'. run s es = Some s' \<longrightarrow> ClickReset True \<notin> set es
              \<longrightarrow> i < length (rows s') \<and> rows s' ! i = rows s ! i)
       \<and> rows (fire s (ClickReset True)) = replicate 10 makeBlankRow"
proof (intro conjI allI impI)
  fix e
  assume "enabled s e" and "e \<noteq> ClickReset True"
  from fire_keeps_locked_row [OF this assms] show "rows (fire s e) ! i = rows s ! i"
    by simp
next
  fix es s'
  assume "run s es = Some s'" and "ClickReset True \<notin> set es"
  from run_keeps_locked_row [OF this assms] assms(1)
  show "i < length (rows s')" and "rows s' ! i = rows s ! i"
    by simp_all
next
  show "rows (fire s (ClickReset True)) = replicate 10 makeBlankRow"
    by (simp add: resetAll_def fresh_rows)
qed

theorem locked_round_immutable_witness:
  "(0::nat) < length (rows scenarioA) \<and> locked (rows scenarioA ! 0)
   \<and> (\<exists>s'. run scenarioA [CellInput 0 Y ''9'', PickerPlus, ClickDone 1, CellInput 1 Y ''3'']
              = Some s'
          \<and> rows s' ! 0
              = makeBlankRow\<lparr>y := Number (Fin 5), redCount := Number (Fin 2), locked := True\<rparr>)"
proof -
  have len: "(0::nat) < length (rows scenarioA)" and lk: "locked (rows scenarioA ! 0)"
    by (simp_all add: scenarioA_def)
  have "run scenarioA [CellInput 0 Y ''9'', PickerPlus, ClickDone 1, CellInput 1 Y ''3''] \<noteq> None"
    by code_simp
  then obtain s' where
    r: "run scenarioA [CellInput 0 Y ''9'', PickerPlus, ClickDone 1, CellInput 1 Y ''3''] = Some s'"
    by blast
  have "ClickReset True \<notin> set [CellInput 0 Y ''9'', PickerPlus, ClickDone 1, CellInput 1 Y ''3'']"
    by simp
  with locked_round_immutable [OF len lk] r have "rows s' ! 0 = rows scenarioA ! 0"
    by blast
  then have "rows s' ! 0
      = makeBlankRow\<lparr>y := Number (Fin 5), redCount := Number (Fin 2), locked := True\<rparr>"
    by (simp add: scenarioA_def)
  with len lk r show ?thesis
    by blast
qed

text \<open>
  C10. In every session reached from a fresh one by user actions (field edits, sign
  toggles, round completions, changes of the default red count, resets, and the rest) the
  sheet has ten rows and every row that is not locked has \<open>redCount\<close> 0; put the other
  way, a row whose \<open>redCount\<close> is not 0 is locked. Field edits leave every \<open>redCount\<close>
  as it is, and the invariant also survives a direct call of \<^verbatim>\<open>setField\<close> with any
  index, key and value and a direct call of \<^verbatim>\<open>doneRound\<close>.
\<close>

theorem unlocked_round_redCount_zero:
  assumes "run freshSession es = Some s"
  shows "length (rows s) = 10
       \<and> (\<forall>i<10. \<not> locked (rows s ! i) \<longrightarrow> redCount (rows s ! i) = Number (Fin 0))
       \<and> (\<forall>i<10. redCount (rows s ! i) \<noteq> Number (Fin 0) \<longrightarrow> locked (rows s ! i))
       \<and> (\<forall>j key raw. \<forall>i<10.
            redCount (rows (cellChange s j key raw) ! i) = redCount (rows s ! i))
       \<and> (\<forall>j key v rs'. setField (rows s) j key v = Inr rs' \<longrightarrow> redCountClean rs')
       \<and> redCountClean (rows (doneRound s))"
proof -
  have "redCountClean (rows freshSession)"
    by (simp add: redCountClean_def fresh_rows makeBlankRow_def list_all_iff)
  with assms have clean: "redCountClean (rows s)"
    by (rule run_redCountClean)
  from assms have len: "length (rows s) = 10"
    by (rule run_length) (simp add: fresh_rows)
  from clean len have zero: "\<forall>i<10. \<not> locked (rows s ! i) \<longrightarrow> redCount (rows s ! i) = Number (Fin 0)"
    by (auto simp: redCountClean_nth)
  then have locked: "\<forall>i<10. redCount (rows s ! i) \<noteq> Number (Fin 0) \<longrightarrow> locked (rows s ! i)"
    by blast
  from len have edits: "\<forall>j key raw. \<forall>i<10.
      redCount (rows (cellChange s j key raw) ! i) = redCount (rows s ! i)"
    by (simp add: cellChange_rows)
  from clean have direct: "\<forall>j key v rs'. setField (rows s) j key v = Inr rs' \<longrightarrow> redCountClean rs'"
    by (blast intro: setField_redCountClean)
  from fire_redCountClean [OF clean, of "ClickDone 0"]
  have completed: "redCountClean (rows (doneRound s))"
    by simp
  from len zero locked edits direct completed show ?thesis
    by (intro conjI)
qed

theorem unlocked_round_redCount_zero_witness:
  "run freshSession [CellInput 0 Y ''5'', DefaultRedInput ''2'', ClickDone 0] = Some scenarioA
   \<and> length (rows scenarioA) = 10
   \<and> locked (rows scenarioA ! 0) \<and> redCount (rows scenarioA ! 0) = Number (Fin 2)
   \<and> \<not> locked (rows scenarioA ! 1) \<and> redCount (rows scenarioA ! 1) = Number (Fin 0)"
  using unlocked_round_redCount_zero [OF scenarioA_reached] scenarioA_reached
  by (simp add: scenarioA_def makeBlankRow_def)

section \<open>Numeric coercion of the cells\<close>

lemma digitVal_le: "isDigit c \<Longrightarrow> digitVal c \<le> 9"
  unfolding isDigit_def digitVal_def by linarith

lemma foldl_digits_bound:
  "\<forall>c\<in>set ds. isDigit c \<Longrightarrow>
     foldl (\<lambda>a c. a * 10 + digitVal c) a ds < (a + 1) * 10 ^ length ds"
proof (induction ds arbitrary: a)
  case Nil
  then show ?case by simp
next
  case (Cons d ds)
  then have d: "digitVal d \<le> 9" and rest: "\<forall>c\<in>set ds. isDigit c"
    by (simp_all add: digitVal_le)
  from Cons.IH [OF rest, of "a * 10 + digitVal d"]
  have "foldl (\<lambda>a c. a * 10 + digitVal c) (a * 10 + digitVal d) ds
      < (a * 10 + digitVal d + 1) * 10 ^ length ds" .
  also from d have "(a * 10 + digitVal d + 1) * 10 ^ length ds \<le> ((a + 1) * 10) * 10 ^ length ds"
    by (intro mult_right_mono) simp_all
  finally show ?case
    by (simp add: algebra_simps)
qed

lemma digitsValue_bound:
  assumes "\<forall>c\<in>set ds. isDigit c" and "length ds \<le> 3"
  shows "digitsValue ds \<le> 999"
proof -
  from foldl_digits_bound [OF assms(1), of 0] have "digitsValue ds < 10 ^ length ds"
    by (simp add: digitsValue_def)
  also from assms(2) have "(10::nat) ^ length ds \<le> 10 ^ 3"
    by (intro power_increasing) simp_all
  finally show ?thesis by simp
qed

lemma capped_digits_bound: "digitsValue (take 3 (filter isDigit raw)) \<le> 999"
  by (rule digitsValue_bound) (auto dest: in_set_takeD)

lemma digit_not_sign: "isDigit c \<Longrightarrow> c \<noteq> CHR ''-'' \<and> c \<noteq> CHR ''+''"
  by (auto simp: isDigit_def)

lemma parseInt_digits:
  assumes "ds \<noteq> []" and "\<forall>c\<in>set ds. isDigit c"
  shows "parseInt ds = Fin (int (digitsValue ds))"
    and "parseInt (CHR ''-'' # ds) = Fin (- int (digitsValue ds))"
proof -
  from assms obtain d ds' where ds: "ds = d # ds'" and d: "isDigit d"
    by (cases ds) auto
  from assms(2) have tw: "takeWhile isDigit ds = ds"
    by (simp add: takeWhile_eq_all_conv)
  from ds digit_not_sign [OF d] have sm: "\<not> startsWithMinus ds"
    and body: "(case ds of [] \<Rightarrow> [] | c # cs \<Rightarrow> if c = CHR ''-'' \<or> c = CHR ''+'' then cs else ds) = ds"
    by (simp_all add: startsWithMinus_def)
  from assms(1) show "parseInt ds = Fin (int (digitsValue ds))"
    by (simp add: parseInt_def Let_def sm body tw)
  from assms(1) show "parseInt (CHR ''-'' # ds) = Fin (- int (digitsValue ds))"
    by (simp add: parseInt_def startsWithMinus_def Let_def tw)
qed

lemma parseInt_zero: "parseInt ''0'' = Fin 0" "parseInt ''-0'' = Fin 0"
  by (simp_all add: parseInt_def startsWithMinus_def isDigit_def digitsValue_def digitVal_def)

lemma capped_digits: "\<forall>c\<in>set (take 3 (filter isDigit raw)). isDigit c"
  by (auto dest: in_set_takeD)

lemma CellNumber_plain:
  "CellNumber_handle False False raw = Some (int (digitsValue (take 3 (filter isDigit raw))))"
proof (cases "take 3 (filter isDigit raw) = []")
  case True
  then show ?thesis
    by (simp add: CellNumber_handle_def parseInt_zero digitsValue_def)
next
  case False
  from parseInt_digits(1) [OF False capped_digits] False show ?thesis
    by (simp add: CellNumber_handle_def)
qed

lemma NumberInput_signed:
  "NumberInput_handle False raw =
     Some (if startsWithMinus raw then - int (digitsValue (take 3 (filter isDigit (tl raw))))
           else int (digitsValue (take 3 (filter isDigit raw))))"
proof (cases "startsWithMinus raw")
  case True
  show ?thesis
  proof (cases "take 3 (filter isDigit (tl raw)) = []")
    case e: True
    with True show ?thesis
      by (simp add: NumberInput_handle_def digitsValue_def)
  next
    case ne: False
    from parseInt_digits(2) [OF ne capped_digits] ne True show ?thesis
      by (simp add: NumberInput_handle_def)
  qed
next
  case False
  show ?thesis
  proof (cases "take 3 (filter isDigit raw) = []")
    case e: True
    with False show ?thesis
      by (simp add: NumberInput_handle_def parseInt_zero digitsValue_def)
  next
    case ne: False
    from parseInt_digits(1) [OF ne capped_digits] ne False show ?thesis
      by (simp add: NumberInput_handle_def)
  qed
qed

lemma storedValue_plain:
  "key \<noteq> RedSum \<Longrightarrow> storedValue key raw = int (digitsValue (take 3 (filter isDigit raw)))"
  by (simp add: storedValue_def cellHandle_def CellNumber_plain)

lemma storedValue_signed:
  "storedValue RedSum raw =
     (if startsWithMinus raw then - int (digitsValue (take 3 (filter isDigit (tl raw))))
      else int (digitsValue (take 3 (filter isDigit raw))))"
  by (simp add: storedValue_def cellHandle_def NumberInput_signed)

lemma storedValue_range: "- 999 \<le> storedValue key raw \<and> storedValue key raw \<le> 999"
proof (cases "key = RedSum")
  case True
  from capped_digits_bound [of raw] capped_digits_bound [of "tl raw"] show ?thesis
    unfolding True storedValue_signed by simp
next
  case False
  from capped_digits_bound [of raw] show ?thesis
    unfolding storedValue_plain [OF False] by simp
qed

text \<open>
  C5 (as stated, refuted). The six \<^verbatim>\<open>CellNumber\<close> cells are rendered without
  \<^verbatim>\<open>allowNegative\<close>, so their handler never keeps a leading minus sign: it is deleted
  with the other non-digits. The text \<^verbatim>\<open>-007\<close> in the yellow cell hands 7 to
  \<^verbatim>\<open>setField\<close>, not -7, and a fresh session stores 7 in yellow of round 1.
\<close>

theorem minus_stripped_counterexample:
  "storedValue Y ''-007'' = 7 \<and> storedValue Y ''-007'' \<noteq> - 7
   \<and> y (rows (cellChange freshSession 0 Y ''-007'') ! 0) = Number (Fin 7)"
proof -
  have v: "storedValue Y ''-007'' = 7"
    by (simp add: storedValue_plain isDigit_def digitsValue_def digitVal_def)
  have "\<not> cellDisabled freshSession 0 Y"
    by (simp add: cellDisabled_def fresh_rows fresh_scalars makeBlankRow_def)
  then have "cellChange freshSession 0 Y ''-007'' = freshSession\<lparr>rows := (rows freshSession)
      [0 := updField Y (Number (Fin (storedValue Y ''-007''))) (rows freshSession ! 0)]\<rparr>"
    by (intro cellChange_enabled) (simp_all add: fresh_rows)
  with v show ?thesis
    by (simp add: fresh_rows)
qed

text \<open>
  C5 (amended). For every text, the cell of every field hands a number to \<^verbatim>\<open>setField\<close>,
  and that number lies in [-999, 999]. The Red Sum cell deletes every non-digit except one
  leading minus sign and keeps the first three digits; the other six cells (yellow, purple,
  blue, green, clear, pink) delete every non-digit, a leading minus sign too, and keep the
  first three digits, so their values lie in [0, 999]. The text \<^verbatim>\<open>12x3\<close> stores 123 and
  the text \<^verbatim>\<open>-\<close> stores 0 on any field; the text \<^verbatim>\<open>-007\<close> stores -7 on Red Sum and
  7 on each of the other six fields.
\<close>

theorem storedValue_coercion:
  "- 999 \<le> storedValue key raw \<and> storedValue key raw \<le> 999
   \<and> cellHandle key False raw = Some (storedValue key raw)
   \<and> (key \<noteq> RedSum \<longrightarrow> 0 \<le> storedValue key raw
        \<and> storedValue key raw = int (digitsValue (take 3 (filter isDigit raw))))
   \<and> storedValue RedSum raw =
        (if startsWithMinus raw then - int (digitsValue (take 3 (filter isDigit (tl raw))))
         else int (digitsValue (take 3 (filter isDigit raw))))
   \<and> storedValue key ''12x3'' = 123
   \<and> storedValue key ''-'' = 0
   \<and> storedValue RedSum ''-007'' = - 7
   \<and> (key \<noteq> RedSum \<longrightarrow> storedValue key ''-007'' = 7)"
proof -
  have lo: "- 999 \<le> storedValue key raw" and hi: "storedValue key raw \<le> 999"
    using storedValue_range [of key raw] by simp_all
  have some: "cellHandle key False raw = Some (storedValue key raw)"
    by (rule cellHandle_enabled)
  have plain: "key \<noteq> RedSum \<longrightarrow> 0 \<le> storedValue key raw
        \<and> storedValue key raw = int (digitsValue (take 3 (filter isDigit raw)))"
    by (simp add: storedValue_plain)
  have a1: "storedValue key ''12x3'' = 123"
  proof (cases "key = RedSum")
    case True
    then show ?thesis by (simp add: storedValue_signed startsWithMinus_def isDigit_def digitsValue_def digitVal_def)
  next
    case False
    then show ?thesis by (simp add: storedValue_plain isDigit_def digitsValue_def digitVal_def)
  qed
  have a2: "storedValue key ''-'' = 0"
  proof (cases "key = RedSum")
    case True
    then show ?thesis by (simp add: storedValue_signed startsWithMinus_def isDigit_def digitsValue_def digitVal_def)
  next
    case False
    then show ?thesis by (simp add: storedValue_plain isDigit_def digitsValue_def digitVal_def)
  qed
  have b: "storedValue RedSum ''-007'' = - 7"
    by (simp add: storedValue_signed startsWithMinus_def isDigit_def digitsValue_def digitVal_def)
  have c: "key \<noteq> RedSum \<longrightarrow> storedValue key ''-007'' = 7"
    by (simp add: storedValue_plain isDigit_def digitsValue_def digitVal_def)
  from lo hi some plain storedValue_signed [of raw] a1 a2 b c show ?thesis
    by (intro conjI)
qed


theorem storedValue_coercion_witness:
  "storedValue Purp ''-007'' = 7 \<and> storedValue RedSum ''-007'' = - 7
   \<and> storedValue Purp ''9x8y7z6'' = 987 \<and> storedValue RedSum ''-9x8y7z6'' = - 987"
  using storedValue_coercion [where key = Purp and raw = "''9x8y7z6''"]
    storedValue_coercion [where key = RedSum and raw = "''-9x8y7z6''"]
  by (simp add: isDigit_def digitsValue_def digitVal_def startsWithMinus_def)

section \<open>The CSV export\<close>

lemma splitOn_not_Nil: "splitOn c xs \<noteq> []"
  by (induction xs) (auto split: list.splits)

lemma splitOn_no_separator: "c \<notin> set x \<Longrightarrow> splitOn c x = [x]"
  by (induction x) auto

lemma splitOn_append_separator:
  "c \<notin> set x \<Longrightarrow> splitOn c (x @ c # rest) = x # splitOn c rest"
  by (induction x) auto

lemma splitOn_joinWith:
  "xs \<noteq> [] \<Longrightarrow> \<forall>x\<in>set xs. c \<notin> set x \<Longrightarrow> splitOn c (joinWith [c] xs) = xs"
proof (induction "[c]" xs rule: joinWith.induct)
  case 1
  then show ?case by simp
next
  case (2 x)
  then show ?case by (simp add: splitOn_no_separator)
next
  case (3 x x' xs)
  then show ?case by (simp add: splitOn_append_separator)
qed

lemma set_joinWith: "set (joinWith sep xs) \<subseteq> set sep \<union> (\<Union>x\<in>set xs. set x)"
  by (induction sep xs rule: joinWith.induct) auto

lemma digitChar_isDigit: "isDigit (digitChar d)"
  by (simp add: digitChar_def isDigit_def)

lemma showNat_digits: "c \<in> set (showNat n) \<Longrightarrow> isDigit c"
proof (induction n rule: showNat.induct)
  case (1 n)
  show ?case
  proof (cases "n < 10")
    case True
    with "1.prems" show ?thesis
      by (simp add: showNat.simps [of n] digitChar_isDigit)
  next
    case False
    with "1.prems" "1.IH" show ?thesis
      by (auto simp add: showNat.simps [of n] digitChar_isDigit)
  qed
qed

lemma isDigit_plain: "isDigit c \<Longrightarrow> c \<noteq> CHR '','' \<and> c \<noteq> CHR 0x0A"
  by (auto simp: isDigit_def)

lemma plain_showNat: "plain (showNat n)"
  unfolding plain_def using isDigit_plain showNat_digits by blast

lemma plain_showInt: "plain (showInt n)"
  using plain_showNat [of "nat n"] plain_showNat [of "nat (- n)"]
  by (simp add: showInt_def plain_def)

lemma plain_cellText: "plain (cellText v)"
proof (cases v)
  case Undefined
  then show ?thesis by (simp add: plain_def)
next
  case (Number n)
  then show ?thesis
    using plain_showInt by (cases n) (simp_all add: plain_def)
qed

lemma plain_csvRow: "\<forall>x\<in>set (csvRow flag i r). plain x"
  by (simp add: csvRow_def plain_showNat plain_showInt plain_cellText)

lemma plain_csvHeader: "\<forall>x\<in>set (csvHeader flag). plain x"
  by (simp add: csvHeader_def plain_def)

lemma plain_csvFooter: "\<forall>x\<in>set (csvFooter gtotal). plain x"
  using plain_showInt [of gtotal] by (simp add: csvFooter_def plain_def)

lemma joinWith_comma_line:
  assumes "\<forall>x\<in>set xs. plain x"
  shows "CHR 0x0A \<notin> set (joinWith '','' xs)"
proof
  assume "CHR 0x0A \<in> set (joinWith '','' xs)"
  with set_joinWith [of "'',''" xs] have "CHR 0x0A \<in> set '','' \<union> (\<Union>x\<in>set xs. set x)"
    by blast
  with assms show False
    by (auto simp: plain_def)
qed

lemma split_comma_line:
  assumes "xs \<noteq> []" and "\<forall>x\<in>set xs. plain x"
  shows "splitOn CHR '','' (joinWith '','' xs) = xs"
  using assms by (intro splitOn_joinWith) (auto simp: plain_def)

lemma csvLines_eq:
  "csvLines name rs flag gtotal =
     joinWith '','' (csvHeader flag)
       # map (\<lambda>(i, r). joinWith '','' (csvRow flag i r)) (enumerate 0 rs)
       @ [joinWith '','' (csvFooter gtotal)]"
  unfolding csvLines_def buildCsvString_def Let_def
  by (rule splitOn_joinWith)
    (auto simp: joinWith_comma_line plain_csvHeader plain_csvRow plain_csvFooter)

lemma csvLines_length: "length (csvLines name rs flag gtotal) = length rs + 2"
  by (simp add: csvLines_eq)

lemma csv_cells_not_Nil:
  "csvHeader flag \<noteq> []" "csvRow flag i r \<noteq> []" "csvFooter gtotal \<noteq> []"
  by (simp_all add: csvHeader_def csvRow_def csvFooter_def)

lemma csvLines_header: "splitOn CHR '','' (csvLines name rs flag gtotal ! 0) = csvHeader flag"
proof -
  have "csvLines name rs flag gtotal ! 0 = joinWith '','' (csvHeader flag)"
    by (simp add: csvLines_eq)
  with split_comma_line [OF csv_cells_not_Nil(1) plain_csvHeader] show ?thesis
    by (simp only:)
qed

lemma csvLines_row:
  assumes "i < length rs"
  shows "splitOn CHR '','' (csvLines name rs flag gtotal ! (i + 1)) = csvRow flag i (rs ! i)"
proof -
  from assms have "csvLines name rs flag gtotal ! (i + 1) = joinWith '','' (csvRow flag i (rs ! i))"
    by (simp add: csvLines_eq nth_append nth_enumerate_eq)
  with split_comma_line [OF csv_cells_not_Nil(2) plain_csvRow] show ?thesis
    by (simp only:)
qed

lemma csvLines_footer:
  "splitOn CHR '','' (csvLines name rs flag gtotal ! (length rs + 1)) = csvFooter gtotal"
proof -
  have "csvLines name rs flag gtotal ! (length rs + 1) = joinWith '','' (csvFooter gtotal)"
    by (simp add: csvLines_eq nth_append)
  with split_comma_line [OF csv_cells_not_Nil(3) plain_csvFooter] show ?thesis
    by (simp only:)
qed

text \<open>
  C9. For every list of rows, every ruleset flag and every game total, the text that
  \<^verbatim>\<open>buildCsvString\<close> returns splits at line feeds into exactly \<open>length rs + 2\<close> lines.
  The first line is the header, which splits at commas into exactly 10 fields. Line
  \<open>i + 1\<close> belongs to row \<open>i\<close> and splits into its 10 cells: the 1-based round number,
  yellow, purple times 2, blue (times 2 under the flag), redSum, redCount or 0, green,
  clear, pink and the row total. The last line splits into eight empty fields, the label
  \<^verbatim>\<open>Total\<close> and the game total. A finite purple value \<open>n\<close> prints as \<open>n * 2\<close>, an absent
  redCount prints as 0. The function takes no state, and the export action leaves the
  session as it is.
\<close>

theorem buildCsvString_shape:
  "length (csvLines name rs flag gtotal) = length rs + 2
   \<and> splitOn CHR '','' (csvLines name rs flag gtotal ! 0) =
       [''Round'', ''Yellow'', ''Purple(x2)'', ''Blue'' @ (if flag then ''(x2 glitter)'' else []),
        ''Red Sum'', ''Red Count'', ''Green'', ''Clear/White'', ''Pink (Pity)'', ''Row Total'']
   \<and> length (splitOn CHR '','' (csvLines name rs flag gtotal ! 0)) = 10
   \<and> (\<forall>i<length rs. splitOn CHR '','' (csvLines name rs flag gtotal ! (i + 1)) =
        [showNat (i + 1), cellText (y (rs ! i)), cellText (times2 (purp (rs ! i))),
         cellText (if flag then times2 (blue (rs ! i)) else blue (rs ! i)),
         cellText (redSum (rs ! i)), cellText (orZeroVal (redCount (rs ! i))),
         cellText (green (rs ! i)), cellText (clear (rs ! i)), cellText (pink (rs ! i)),
         showInt (computeRowTotal (rs ! i) flag)])
   \<and> splitOn CHR '','' (csvLines name rs flag gtotal ! (length rs + 1)) =
       [[], [], [], [], [], [], [], [], ''Total'', showInt gtotal]
   \<and> cellText (times2 (Number (Fin n))) = showInt (n * 2)
   \<and> cellText (orZeroVal Undefined) = showInt 0
   \<and> cellText (orZeroVal (Number (Fin n))) = showInt n
   \<and> fire s ClickExport = s"
proof -
  have header: "splitOn CHR '','' (csvLines name rs flag gtotal ! 0) =
       [''Round'', ''Yellow'', ''Purple(x2)'', ''Blue'' @ (if flag then ''(x2 glitter)'' else []),
        ''Red Sum'', ''Red Count'', ''Green'', ''Clear/White'', ''Pink (Pity)'', ''Row Total'']"
    unfolding csvLines_header by (simp only: csvHeader_def)
  then have ten: "length (splitOn CHR '','' (csvLines name rs flag gtotal ! 0)) = 10"
    by simp
  have rows: "\<forall>i<length rs. splitOn CHR '','' (csvLines name rs flag gtotal ! (i + 1)) =
        [showNat (i + 1), cellText (y (rs ! i)), cellText (times2 (purp (rs ! i))),
         cellText (if flag then times2 (blue (rs ! i)) else blue (rs ! i)),
         cellText (redSum (rs ! i)), cellText (orZeroVal (redCount (rs ! i))),
         cellText (green (rs ! i)), cellText (clear (rs ! i)), cellText (pink (rs ! i)),
         showInt (computeRowTotal (rs ! i) flag)]"
  proof (intro allI impI)
    fix i
    assume "i < length rs"
    then show "splitOn CHR '','' (csvLines name rs flag gtotal ! (i + 1)) =
        [showNat (i + 1), cellText (y (rs ! i)), cellText (times2 (purp (rs ! i))),
         cellText (if flag then times2 (blue (rs ! i)) else blue (rs ! i)),
         cellText (redSum (rs ! i)), cellText (orZeroVal (redCount (rs ! i))),
         cellText (green (rs ! i)), cellText (clear (rs ! i)), cellText (pink (rs ! i)),
         showInt (computeRowTotal (rs ! i) flag)]"
      by (simp only: csvLines_row csvRow_def)
  qed
  have footer: "splitOn CHR '','' (csvLines name rs flag gtotal ! (length rs + 1)) =
       [[], [], [], [], [], [], [], [], ''Total'', showInt gtotal]"
    unfolding csvLines_footer by (simp only: csvFooter_def)
  have cells: "cellText (times2 (Number (Fin n))) = showInt (n * 2)"
    "cellText (orZeroVal Undefined) = showInt 0"
    "cellText (orZeroVal (Number (Fin n))) = showInt n"
    by simp_all
  have export: "fire s ClickExport = s"
    by simp
  from csvLines_length [of name rs flag gtotal] header ten rows footer cells export
  show ?thesis
    by (intro conjI)
qed

lemma scenarioA_first_row:
  "[showNat (0 + 1), cellText (y (rows scenarioA ! 0)), cellText (times2 (purp (rows scenarioA ! 0))),
    cellText (if False then times2 (blue (rows scenarioA ! 0)) else blue (rows scenarioA ! 0)),
    cellText (redSum (rows scenarioA ! 0)), cellText (orZeroVal (redCount (rows scenarioA ! 0))),
    cellText (green (rows scenarioA ! 0)), cellText (clear (rows scenarioA ! 0)),
    cellText (pink (rows scenarioA ! 0)), showInt (computeRowTotal (rows scenarioA ! 0) False)]
   = [''1'', ''5'', ''0'', ''0'', ''0'', ''2'', ''0'', ''0'', ''0'', ''5'']"
  by code_simp

theorem buildCsvString_shape_witness:
  "length (csvLines ''Player'' (rows scenarioA) False 5) = 12
   \<and> splitOn CHR '','' (csvLines ''Player'' (rows scenarioA) False 5 ! (0 + 1))
       = [''1'', ''5'', ''0'', ''0'', ''0'', ''2'', ''0'', ''0'', ''0'', ''5'']"
proof -
  note shape = buildCsvString_shape [where name = "''Player''" and rs = "rows scenarioA"
      and flag = False and gtotal = 5 and n = 0 and s = freshSession]
  have len: "length (rows scenarioA) = 10"
    by (simp add: scenarioA_def)
  from shape len have l: "length (csvLines ''Player'' (rows scenarioA) False 5) = 12"
    by simp
  from len have "(0::nat) < length (rows scenarioA)"
    by simp
  with shape have "splitOn CHR '','' (csvLines ''Player'' (rows scenarioA) False 5 ! (0 + 1)) =
    [showNat (0 + 1), cellText (y (rows scenarioA ! 0)), cellText (times2 (purp (rows scenarioA ! 0))),
    cellText (if False then times2 (blue (rows scenarioA ! 0)) else blue (rows scenarioA ! 0)),
    cellText (redSum (rows scenarioA ! 0)), cellText (orZeroVal (redCount (rows scenarioA ! 0))),
    cellText (green (rows scenarioA ! 0)), cellText (clear (rows scenarioA ! 0)),
    cellText (pink (rows scenarioA ! 0)), showInt (computeRowTotal (rows scenarioA ! 0) False)]"
    by blast
  with l show ?thesis
    by (simp only: scenarioA_first_row)
qed

section \<open>Restoring a saved session: what the load effect does\<close>

lemma fresh_cells:
  "activeRound_js freshCells = JNum 0" "defaultRedCount_js freshCells = JNum 0"
  "playerName_js freshCells = JStr ''Player''" "hasGlitterBlue_js freshCells = False"
  by (simp_all add: freshCells_def)

lemma loadUserData_parsed:
  assumes "truthy saved"
  shows "rows_js (loadUserData (Inr saved) st) = orElse (getProp saved ''rows'') (rows_js st)"
    and "activeRound_js (loadUserData (Inr saved) st) = orElse (getProp saved ''activeRound'') (JNum 0)"
    and "defaultRedCount_js (loadUserData (Inr saved) st) = nullish (getProp saved ''defaultRedCount'') (JNum 0)"
    and "playerName_js (loadUserData (Inr saved) st) = orElse (getProp saved ''playerName'') (JStr ''Player'')"
    and "hasGlitterBlue_js (loadUserData (Inr saved) st) = notNot (getProp saved ''hasGlitterBlue'')"
  using assms by (simp_all add: loadUserData_def)

lemma nullish_Some: "v \<noteq> JNull \<Longrightarrow> nullish (Some v) d = v"
  by (cases v) simp_all

text \<open>
  C8 (as stated, refuted). The load effect replaces a field by its default only when the
  stored value is falsy (\<^verbatim>\<open>||\<close>) or, for the default red count, null or undefined
  (\<^verbatim>\<open>??\<close>); it never looks at the type of a value. A stored default red count
  \<^verbatim>\<open>"abc"\<close> becomes the state, and so do a stored active round \<^verbatim>\<open>"x"\<close>, a stored
  player name 42 and stored rows \<^verbatim>\<open>"abc"\<close>; a stored ruleset flag \<^verbatim>\<open>"no"\<close> reads
  back as true.
\<close>

theorem malformed_field_kept_counterexample:
  "\<not> wellFormedCount (JStr ''abc'')
   \<and> defaultRedCount_js (loadUserData (Inr (JObj [(''defaultRedCount'', JStr ''abc'')])) freshCells)
       = JStr ''abc''
   \<and> defaultRedCount_js (loadUserData (Inr (JObj [(''defaultRedCount'', JStr ''abc'')])) freshCells)
       \<noteq> defaultRedCount_js freshCells
   \<and> \<not> wellFormedIndex (JStr ''x'')
   \<and> activeRound_js (loadUserData (Inr (JObj [(''activeRound'', JStr ''x'')])) freshCells) = JStr ''x''
   \<and> \<not> wellFormedName (JNum 42)
   \<and> playerName_js (loadUserData (Inr (JObj [(''playerName'', JNum 42)])) freshCells) = JNum 42
   \<and> \<not> wellFormedFlag (JStr ''no'')
   \<and> hasGlitterBlue_js (loadUserData (Inr (JObj [(''hasGlitterBlue'', JStr ''no'')])) freshCells)
   \<and> \<not> wellFormedRows (JStr ''abc'')
   \<and> rows_js (loadUserData (Inr (JObj [(''rows'', JStr ''abc'')])) freshCells) = JStr ''abc''"
  by (simp add: loadUserData_def fresh_cells)

text \<open>
  C8 (amended). The load effect never throws. A snapshot that does not parse, or that
  parses to a falsy value, leaves the fresh session in place. Otherwise the five fields
  are restored independently of each other: a field that is absent falls back to its
  fresh-session default (for the default red count a stored null does too, for rows,
  active round and player name any falsy stored value does), every other stored value is
  taken as it is, well-formed or not, and the ruleset flag becomes the truthiness of the
  stored value.
\<close>

theorem loadUserData_fallbacks:
  "loadUserData (Inl SyntaxError) freshCells = freshCells
   \<and> (\<not> truthy saved \<longrightarrow> loadUserData (Inr saved) freshCells = freshCells)
   \<and> (truthy saved \<longrightarrow>
        (getProp saved ''rows'' = None
           \<longrightarrow> rows_js (loadUserData (Inr saved) freshCells) = rows_js freshCells)
      \<and> (getProp saved ''activeRound'' = None
           \<longrightarrow> activeRound_js (loadUserData (Inr saved) freshCells) = JNum 0)
      \<and> (getProp saved ''defaultRedCount'' = None \<or> getProp saved ''defaultRedCount'' = Some JNull
           \<longrightarrow> defaultRedCount_js (loadUserData (Inr saved) freshCells) = JNum 0)
      \<and> (getProp saved ''playerName'' = None
           \<longrightarrow> playerName_js (loadUserData (Inr saved) freshCells) = JStr ''Player'')
      \<and> (getProp saved ''hasGlitterBlue'' = None
           \<longrightarrow> hasGlitterBlue_js (loadUserData (Inr saved) freshCells) = False)
      \<and> (\<forall>v. getProp saved ''rows'' = Some v \<longrightarrow>
             rows_js (loadUserData (Inr saved) freshCells) = (if truthy v then v else rows_js freshCells))
      \<and> (\<forall>v. getProp saved ''activeRound'' = Some v \<longrightarrow>
             activeRound_js (loadUserData (Inr saved) freshCells) = (if truthy v then v else JNum 0))
      \<and> (\<forall>v. getProp saved ''defaultRedCount'' = Some v \<longrightarrow> v \<noteq> JNull \<longrightarrow>
             defaultRedCount_js (loadUserData (Inr saved) freshCells) = v)
      \<and> (\<forall>v. getProp saved ''playerName'' = Some v \<longrightarrow>
             playerName_js (loadUserData (Inr saved) freshCells)
               = (if truthy v then v else JStr ''Player''))
      \<and> (\<forall>v. getProp saved ''hasGlitterBlue'' = Some v \<longrightarrow>
             hasGlitterBlue_js (loadUserData (Inr saved) freshCells) = truthy v))"
proof (intro conjI impI allI)
  show "loadUserData (Inl SyntaxError) freshCells = freshCells"
    by (simp add: loadUserData_def)
  show "loadUserData (Inr saved) freshCells = freshCells" if "\<not> truthy saved"
    using that by (simp add: loadUserData_def)
next
  assume t: "truthy saved"
  note l = loadUserData_parsed [OF t, of freshCells]
  show "rows_js (loadUserData (Inr saved) freshCells) = rows_js freshCells"
    if "getProp saved ''rows'' = None"
    using that by (simp add: l)
  show "activeRound_js (loadUserData (Inr saved) freshCells) = JNum 0"
    if "getProp saved ''activeRound'' = None"
    using that by (simp add: l)
  show "defaultRedCount_js (loadUserData (Inr saved) freshCells) = JNum 0"
    if "getProp saved ''defaultRedCount'' = None \<or> getProp saved ''defaultRedCount'' = Some JNull"
    using that by (auto simp add: l)
  show "playerName_js (loadUserData (Inr saved) freshCells) = JStr ''Player''"
    if "getProp saved ''playerName'' = None"
    using that by (simp add: l)
  show "hasGlitterBlue_js (loadUserData (Inr saved) freshCells) = False"
    if "getProp saved ''hasGlitterBlue'' = None"
    using that by (simp add: l)
  show "rows_js (loadUserData (Inr saved) freshCells) = (if truthy v then v else rows_js freshCells)"
    if "getProp saved ''rows'' = Some v" for v
    using that by (simp add: l)
  show "activeRound_js (loadUserData (Inr saved) freshCells) = (if truthy v then v else JNum 0)"
    if "getProp saved ''activeRound'' = Some v" for v
    using that by (simp add: l)
  show "defaultRedCount_js (loadUserData (Inr saved) freshCells) = v"
    if "getProp saved ''defaultRedCount'' = Some v" and "v \<noteq> JNull" for v
    using that by (simp add: l nullish_Some)
  show "playerName_js (loadUserData (Inr saved) freshCells) = (if truthy v then v else JStr ''Player'')"
    if "getProp saved ''playerName'' = Some v" for v
    using that by (simp add: l)
  show "hasGlitterBlue_js (loadUserData (Inr saved) freshCells) = truthy v"
    if "getProp saved ''hasGlitterBlue'' = Some v" for v
    using that by (simp add: l)
qed

theorem loadUserData_fallbacks_witness:
  "truthy (JObj [(''activeRound'', JNum 3), (''playerName'', JStr ''Ann'')])
   \<and> loadUserData (Inr (JObj [(''activeRound'', JNum 3), (''playerName'', JStr ''Ann'')])) freshCells
       = freshCells\<lparr>activeRound_js := JNum 3, playerName_js := JStr ''Ann''\<rparr>
   \<and> loadUserData (Inr JNull) freshCells = freshCells"
  using loadUserData_fallbacks [where saved = "JObj [(''activeRound'', JNum 3), (''playerName'', JStr ''Ann'')]"]
    loadUserData_fallbacks [where saved = JNull]
  by (simp add: freshCells_def)

end
